theory Spec2Isabelle
  imports Main "HOL-Library.Word"
begin

section \<open>The tic-tac-toe client (src/program/tic-tac-toe.js)\<close>

text \<open>
  The class \<open>TicTacToe\<close> mirrors the state of an on-chain game. The embedding keeps
  the code's names. Everything the class does to its collaborators (the connection, the
  transaction layer, the console, the event emitter, the timer) is written into an
  explicit environment; every \<open>throw\<close> of the source is a value \<open>Inl e\<close>.
\<close>

subsection \<open>Data\<close>

type_synonym byte = "8 word"
type_synonym buffer = "byte list"

text \<open>
  The errors of the source, named as the specification names them:
  \<^item> \<open>RangeError\<close>: \<open>readUInt32LE\<close> on a buffer of fewer than four bytes;
  \<^item> \<open>MalformedState\<close>: \<open>Error('Invalid game state length')\<close>;
  \<^item> \<open>UnexpectedTag t\<close>: \<open>Error('Invalid game state type: t')\<close>;
  \<^item> \<open>UnknownPhase p\<close>: \<open>Error('Unhandled game state: p')\<close>;
  \<^item> \<open>External m\<close>: an error raised by a collaborator (the object decoder, the
    \<open>PublicKey\<close> constructor, the transaction layer, the account allocation, the
    snapshot fetch).
\<close>

datatype error =
    RangeError
  | MalformedState
  | UnexpectedTag string
  | UnknownPhase string
  | External string

datatype PublicKey = PublicKey buffer

text \<open>
  The value the object decoder returns for a payload: the pair of \<open>tttAccount[0]\<close>
  (the tag) and \<open>tttAccount[1]\<close> (the record), with the fields the code reads.
\<close>

record game =
  player_x :: buffer
  player_o :: "buffer option"
  state_tag :: string
  board_cells :: "string list"
  keep_alive_pair :: "int list"

text \<open>
  The two library functions \<open>_getGameState\<close> calls, both of which may throw:
  \<open>cbor.decode\<close> and the constructor \<open>new PublicKey(...)\<close>.
\<close>

record library =
  cbor_decode :: "buffer \<Rightarrow> error + (string \<times> game)"
  newPublicKey :: "buffer \<Rightarrow> error + PublicKey"

record TicTacToeGameState =
  gameState :: string
  inProgress :: bool
  myTurn :: bool
  draw :: bool
  winner :: bool
  board :: "string list"
  playerX :: "PublicKey option"
  playerO :: "PublicKey option"
  keep_alive :: "int list"

record TicTacToe =
  abandoned :: bool
  isX :: bool
  state :: TicTacToeGameState
  changeSubscriptionId :: "nat option"

text \<open>Commands submitted to the on-chain program, as the arrays the code encodes.\<close>

datatype command = InitGame | Join int | KeepAlive int | Move int int

text \<open>
  What the class does to its collaborators, in the order it does it:
  \<open>connection.onAccountChange\<close> (with the id it returned),
  \<open>connection.removeAccountChangeListener\<close>, \<open>sendAndConfirmTransaction\<close>,
  \<open>console.error\<close>, \<open>setTimeout\<close>, and the three calls on the event emitter
  \<open>_ee\<close>: \<open>emit('change')\<close>, \<open>on('change', fn)\<close> and \<open>off('change', fn)\<close>.
  The emitter keeps its listeners itself; the class only makes these calls.
\<close>

datatype effect =
    Subscribed nat
  | Unsubscribed nat
  | Sent command
  | ConsoleError error
  | SetTimeout
  | EmitChange
  | ListenerOn nat
  | ListenerOff nat

record environment =
  effects :: "effect list"
  nextSubscriptionId :: nat

subsection \<open>The constructor\<close>

definition initialState :: TicTacToeGameState where
  "initialState =
     \<lparr> gameState = ''Waiting'', inProgress = False, myTurn = False, draw = False,
       winner = False, board = [], playerX = None, playerO = None,
       keep_alive = [0, 0] \<rparr>"

definition constructor :: "bool \<Rightarrow> TicTacToe" where
  "constructor x =
     \<lparr> abandoned = False, isX = x, state = initialState,
       changeSubscriptionId = None \<rparr>"

subsection \<open>The binary state decoder: \<open>_getGameState\<close>\<close>

text \<open>\<open>userdata.readUInt32LE(offset)\<close>: four bytes, least significant first.\<close>

definition readUInt32LE :: "buffer \<Rightarrow> nat \<Rightarrow> error + nat" where
  "readUInt32LE b off =
     (if off + 4 \<le> length b
      then Inr (unat (b ! off) + 256 * unat (b ! (off + 1))
                + 65536 * unat (b ! (off + 2)) + 16777216 * unat (b ! (off + 3)))
      else Inl RangeError)"

text \<open>Lines 267 to 282: the switch of \<open>_getGameState\<close> over the phase tag.\<close>

definition fetchSwitch :: "TicTacToeGameState \<Rightarrow> error + TicTacToeGameState" where
  "fetchSwitch st =
     (if gameState st = ''Waiting'' then Inr st
      else if gameState st = ''XMove'' \<or> gameState st = ''OMove''
        then Inr (st\<lparr>inProgress := True\<rparr>)
      else if gameState st = ''Draw'' then Inr (st\<lparr>draw := True\<rparr>)
      else if gameState st = ''XWon'' \<or> gameState st = ''OWon'' then Inr st
      else Inl (UnknownPhase (gameState st)))"

text \<open>Line 253: \<open>game.player_o ? new PublicKey(game.player_o) : null\<close>.\<close>

definition playerOKey :: "library \<Rightarrow> buffer option \<Rightarrow> error + PublicKey option" where
  "playerOKey lib o_bytes =
     (case o_bytes of
        None \<Rightarrow> Inr None
      | Some b \<Rightarrow> (case newPublicKey lib b of Inl e \<Rightarrow> Inl e | Inr k \<Rightarrow> Inr (Some k)))"

text \<open>
  \<open>_getGameState\<close>, lines 237 to 285. The object decoder is applied to
  \<open>userdata.slice(4)\<close>, all bytes after the prefix. The two keys are constructed
  (lines 252 and 253) before the view is built and the phase is switched on.
\<close>

definition priv_getGameState :: "library \<Rightarrow> buffer \<Rightarrow> error + TicTacToeGameState" where
  "priv_getGameState lib userdata =
     (case readUInt32LE userdata 0 of
        Inl e \<Rightarrow> Inl e
      | Inr len \<Rightarrow>
          if len + 4 \<ge> length userdata then Inl MalformedState
          else (case cbor_decode lib (drop 4 userdata) of
                  Inl e \<Rightarrow> Inl e
                | Inr (tag, g) \<Rightarrow>
                    if tag \<noteq> ''Game'' then Inl (UnexpectedTag tag)
                    else (case newPublicKey lib (player_x g) of
                            Inl e \<Rightarrow> Inl e
                          | Inr px \<Rightarrow>
                              (case playerOKey lib (player_o g) of
                                 Inl e \<Rightarrow> Inl e
                               | Inr po \<Rightarrow>
                                   fetchSwitch
                                     \<lparr> gameState = state_tag g, inProgress = False,
                                       myTurn = False, draw = False, winner = False,
                                       board = map (\<lambda>i. if i = ''F'' then '' '' else i)
                                                 (board_cells g),
                                       playerX = Some px, playerO = po,
                                       keep_alive = keep_alive_pair g \<rparr>))))"

text \<open>
  The static \<open>getGameState\<close>, lines 226 to 232: the snapshot fetch
  \<open>connection.getAccountInfo\<close> either fails or yields the account's userdata.
\<close>

definition getGameState :: "library \<Rightarrow> error + buffer \<Rightarrow> error + TicTacToeGameState" where
  "getGameState lib fetched =
     (case fetched of Inl e \<Rightarrow> Inl e | Inr userdata \<Rightarrow> priv_getGameState lib userdata)"

subsection \<open>The liveness monitor: \<open>isPeerAlive\<close>\<close>

text \<open>
  Lines 287 to 291. Timestamps are integers (milliseconds). An index outside the array
  reads \<open>undefined\<close>, the difference is \<open>NaN\<close> and the comparison is false.
\<close>

definition isPeerAlive :: "TicTacToe \<Rightarrow> int \<Rightarrow> bool" where
  "isPeerAlive s now =
     (let i = (if isX s then 1 else 0 :: nat) in
      if i < length (keep_alive (state s))
      then now - keep_alive (state s) ! i < 10000
      else False)"

subsection \<open>Commands: \<open>keepAlive\<close>, \<open>abandon\<close>, \<open>move\<close>\<close>

text \<open>
  \<open>sendAndConfirmTransaction\<close> is a collaborator: the model records the submission and
  takes its outcome as an input (\<open>None\<close>: confirmed; \<open>Some e\<close>: it threw \<open>e\<close>).
  An operation returns its own outcome (\<open>Inl e\<close>: the promise is rejected with \<open>e\<close>)
  together with the session and the environment it leaves behind.
\<close>

type_synonym 'a outcome = "(error + 'a) \<times> TicTacToe \<times> environment"

definition record_effect :: "effect \<Rightarrow> environment \<Rightarrow> environment" where
  "record_effect x env = env\<lparr>effects := effects env @ [x]\<rparr>"

definition settled :: "error option \<Rightarrow> error + unit" where
  "settled out = (case out of None \<Rightarrow> Inr () | Some e \<Rightarrow> Inl e)"

text \<open>Lines 181 to 184: \<open>when === undefined ? Date.now() : when\<close>.\<close>

definition keepAliveCommand :: "int option \<Rightarrow> int \<Rightarrow> command" where
  "keepAliveCommand when now = KeepAlive (case when of None \<Rightarrow> now | Some t \<Rightarrow> t)"

definition keepAlive ::
  "int option \<Rightarrow> int \<Rightarrow> error option \<Rightarrow> TicTacToe \<Rightarrow> environment \<Rightarrow> unit outcome" where
  "keepAlive when now out s env =
     (settled out, s, record_effect (Sent (keepAliveCommand when now)) env)"

text \<open>Lines 198 to 201: the flag is written first, then \<open>keepAlive(0)\<close> is awaited.\<close>

definition abandon ::
  "int \<Rightarrow> error option \<Rightarrow> TicTacToe \<Rightarrow> environment \<Rightarrow> unit outcome" where
  "abandon now out s env = keepAlive (Some 0) now out (s\<lparr>abandoned := True\<rparr>) env"

definition move ::
  "int \<Rightarrow> int \<Rightarrow> error option \<Rightarrow> TicTacToe \<Rightarrow> environment \<Rightarrow> unit outcome" where
  "move x y out s env = (settled out, s, record_effect (Sent (Move x y)) env)"

text \<open>Lines 335 to 344: both hand the callback to the event emitter.\<close>

definition onChange :: "nat \<Rightarrow> environment \<Rightarrow> environment" where
  "onChange fn env = record_effect (ListenerOn fn) env"

definition removeChangeListener :: "nat \<Rightarrow> environment \<Rightarrow> environment" where
  "removeChangeListener fn env = record_effect (ListenerOff fn) env"

subsection \<open>The change handler: \<open>_onAccountChange\<close>\<close>

text \<open>Lines 304 to 323: the switch of the handler, which uses the local \<open>isX\<close>.\<close>

definition changeSwitch :: "bool \<Rightarrow> TicTacToeGameState \<Rightarrow> error + TicTacToeGameState" where
  "changeSwitch x st =
     (if gameState st = ''Waiting'' then Inr st
      else if gameState st = ''XMove'' then Inr (st\<lparr>myTurn := x\<rparr>)
      else if gameState st = ''OMove'' then Inr (st\<lparr>myTurn := \<not> x\<rparr>)
      else if gameState st = ''Draw'' then Inr st
      else if gameState st = ''XWon'' then Inr (st\<lparr>winner := x\<rparr>)
      else if gameState st = ''OWon'' then Inr (st\<lparr>winner := \<not> x\<rparr>)
      else Inl (UnknownPhase (gameState st)))"

text \<open>
  The view of a snapshot before the liveness monitor is consulted: the decoder followed
  by the handler's switch (lines 302 to 323).
\<close>

definition derive :: "library \<Rightarrow> bool \<Rightarrow> buffer \<Rightarrow> error + TicTacToeGameState" where
  "derive lib x userdata =
     (case priv_getGameState lib userdata of
        Inl e \<Rightarrow> Inl e
      | Inr st \<Rightarrow> changeSwitch x st)"

text \<open>Lines 325 to 328: the liveness adjustment on the stored view.\<close>

definition livenessAdjust :: "int \<Rightarrow> TicTacToe \<Rightarrow> TicTacToe" where
  "livenessAdjust now s =
     (if inProgress (state s) \<and> \<not> isPeerAlive s now
      then s\<lparr>state := (state s)\<lparr>inProgress := False\<rparr>, abandoned := True\<rparr>
      else s)"

text \<open>
  \<open>_onAccountChange\<close>, lines 298 to 330. The assignment \<open>this.state = ...\<close> happens
  only when the decoder returned; a throw of the handler's own switch comes after it.
\<close>

definition priv_onAccountChange ::
  "library \<Rightarrow> buffer \<Rightarrow> int \<Rightarrow> TicTacToe \<Rightarrow> environment \<Rightarrow> unit outcome" where
  "priv_onAccountChange lib userdata now s env =
     (case priv_getGameState lib userdata of
        Inl e \<Rightarrow> (Inl e, s, env)
      | Inr st \<Rightarrow>
          (case changeSwitch (isX s) st of
             Inl e \<Rightarrow> (Inl e, s\<lparr>state := st\<rparr>, env)
           | Inr st' \<Rightarrow>
               (let s' = livenessAdjust now (s\<lparr>state := st'\<rparr>)
                in (Inr (), s', record_effect EmitChange env))))"

subsection \<open>The keep-alive loop: \<open>scheduleNextKeepAlive\<close>\<close>

text \<open>Lines 92 to 99 and 123: subscribe unless subscribed, then arm the timer.\<close>

definition scheduleNextKeepAlive :: "TicTacToe \<Rightarrow> environment \<Rightarrow> TicTacToe \<times> environment" where
  "scheduleNextKeepAlive s env =
     (case changeSubscriptionId s of
        None \<Rightarrow>
          (s\<lparr>changeSubscriptionId := Some (nextSubscriptionId env)\<rparr>,
           record_effect SetTimeout
             (record_effect (Subscribed (nextSubscriptionId env))
                (env\<lparr>nextSubscriptionId := nextSubscriptionId env + 1\<rparr>)))
      | Some i \<Rightarrow> (s, record_effect SetTimeout env))"

text \<open>
  The timer callback, lines 100 to 121, runs in two parts, since it suspends at
  \<open>await this.keepAlive()\<close>. The first part either ends the loop (\<open>Terminated\<close>) or
  submits the keep-alive and suspends (\<open>Suspended\<close>); the second part runs when the
  submission settles.
\<close>

datatype continuation = Terminated | Suspended

definition timerCallback ::
  "int \<Rightarrow> TicTacToe \<Rightarrow> environment \<Rightarrow> continuation \<times> TicTacToe \<times> environment" where
  "timerCallback now s env =
     (if abandoned s then
        (case changeSubscriptionId s of
           Some i \<Rightarrow>
             (Terminated, s\<lparr>changeSubscriptionId := None\<rparr>, record_effect (Unsubscribed i) env)
         | None \<Rightarrow> (Terminated, s, env))
      else if gameState (state s) \<in> set [''XWon'', ''OWin'', ''Draw''] then (Terminated, s, env)
      else (Suspended, s, record_effect (Sent (keepAliveCommand None now)) env))"

definition timerCallbackResume ::
  "error option \<Rightarrow> TicTacToe \<Rightarrow> environment \<Rightarrow> TicTacToe \<times> environment" where
  "timerCallbackResume out s env =
     scheduleNextKeepAlive s
       (case out of None \<Rightarrow> env | Some e \<Rightarrow> record_effect (ConsoleError e) env)"

subsection \<open>A session and its event loop\<close>

text \<open>
  A running session: the object, the environment, the number of armed timers and the
  number of timer callbacks suspended at their \<open>await\<close>.
\<close>

record system =
  session :: TicTacToe
  world :: environment
  timers :: nat
  awaiting :: nat

definition started :: "TicTacToe \<times> environment \<Rightarrow> system" where
  "started p = \<lparr> session = fst p, world = snd p, timers = 1, awaiting = 0 \<rparr>"

text \<open>
  \<open>create\<close>, lines 129 to 149: the account allocation and the \<open>InitGame\<close> submission
  may fail; then the session is constructed as player X and the loop is started.
\<close>

definition create :: "error option \<Rightarrow> error option \<Rightarrow> environment \<Rightarrow> error + system" where
  "create alloc out env =
     (case alloc of
        Some e \<Rightarrow> Inl e
      | None \<Rightarrow>
          (case out of
             Some e \<Rightarrow> Inl e
           | None \<Rightarrow>
               Inr (started (scheduleNextKeepAlive (constructor True)
                               (record_effect (Sent InitGame) env)))))"

text \<open>
  \<open>join\<close>, lines 154 to 175: the \<open>Join\<close> submission, the snapshot fetch and the
  change handler may fail; then the loop is started.
\<close>

definition join ::
  "library \<Rightarrow> int \<Rightarrow> error option \<Rightarrow> error + buffer \<Rightarrow> int \<Rightarrow> environment \<Rightarrow> error + system" where
  "join lib now out fetched now' env =
     (case out of
        Some e \<Rightarrow> Inl e
      | None \<Rightarrow>
          (case fetched of
             Inl e \<Rightarrow> Inl e
           | Inr userdata \<Rightarrow>
               (case priv_onAccountChange lib userdata now' (constructor False)
                       (record_effect (Sent (Join now)) env) of
                  (Inl e, s, env') \<Rightarrow> Inl e
                | (Inr u, s, env') \<Rightarrow> Inr (started (scheduleNextKeepAlive s env')))))"

text \<open>
  What can happen to a running session. A timer fires only when one is armed, and a
  suspended callback resumes only when one is suspended; the other events are calls
  from outside (the connection delivering a snapshot, the user interface).
\<close>

datatype event =
    TimerFires int
  | KeepAliveSettles "error option"
  | AccountChange buffer int
  | CallKeepAlive "int option" int "error option"
  | CallAbandon int "error option"
  | CallMove int int "error option"
  | CallOnChange nat
  | CallRemoveChangeListener nat

fun step :: "library \<Rightarrow> event \<Rightarrow> system \<Rightarrow> system" where
  "step lib (TimerFires now) sys =
     (if timers sys = 0 then sys
      else (case timerCallback now (session sys) (world sys) of
              (Terminated, s, env) \<Rightarrow>
                sys\<lparr>session := s, world := env, timers := timers sys - 1\<rparr>
            | (Suspended, s, env) \<Rightarrow>
                sys\<lparr>session := s, world := env, timers := timers sys - 1,
                    awaiting := awaiting sys + 1\<rparr>))"
| "step lib (KeepAliveSettles out) sys =
     (if awaiting sys = 0 then sys
      else (case timerCallbackResume out (session sys) (world sys) of
              (s, env) \<Rightarrow>
                sys\<lparr>session := s, world := env, timers := timers sys + 1,
                    awaiting := awaiting sys - 1\<rparr>))"
| "step lib (AccountChange userdata now) sys =
     (case priv_onAccountChange lib userdata now (session sys) (world sys) of
        (r, s, env) \<Rightarrow> sys\<lparr>session := s, world := env\<rparr>)"
| "step lib (CallKeepAlive when now out) sys =
     (case keepAlive when now out (session sys) (world sys) of
        (r, s, env) \<Rightarrow> sys\<lparr>session := s, world := env\<rparr>)"
| "step lib (CallAbandon now out) sys =
     (case abandon now out (session sys) (world sys) of
        (r, s, env) \<Rightarrow> sys\<lparr>session := s, world := env\<rparr>)"
| "step lib (CallMove x y out) sys =
     (case move x y out (session sys) (world sys) of
        (r, s, env) \<Rightarrow> sys\<lparr>session := s, world := env\<rparr>)"
| "step lib (CallOnChange fn) sys = sys\<lparr>world := onChange fn (world sys)\<rparr>"
| "step lib (CallRemoveChangeListener fn) sys =
     sys\<lparr>world := removeChangeListener fn (world sys)\<rparr>"

fun run :: "library \<Rightarrow> event list \<Rightarrow> system \<Rightarrow> system" where
  "run lib [] sys = sys"
| "run lib (e # es) sys = run lib es (step lib e sys)"

text \<open>How often the subscription was acquired and released, read off the effects.\<close>

definition acquisitions :: "environment \<Rightarrow> nat" where
  "acquisitions env = length (filter (\<lambda>x. case x of Subscribed i \<Rightarrow> True | _ \<Rightarrow> False) (effects env))"

definition releases :: "environment \<Rightarrow> nat" where
  "releases env = length (filter (\<lambda>x. case x of Unsubscribed i \<Rightarrow> True | _ \<Rightarrow> False) (effects env))"

text \<open>The six phase tags of the type \<open>TicTacToeGameState\<close>, line 29.\<close>

definition phases :: "string list" where
  "phases = [''Waiting'', ''XMove'', ''OMove'', ''Draw'', ''XWon'', ''OWon'']"

subsection \<open>The subscription invariant\<close>

text \<open>
  For a session whose environment held \<open>a\<close> acquisitions and \<open>r\<close> releases before it
  started: the loop is a single chain (one armed timer or one suspended callback at
  most), the session acquired once, and it holds no subscription only after the loop
  has ended by releasing it.
\<close>

definition subscription_inv :: "nat \<Rightarrow> nat \<Rightarrow> system \<Rightarrow> bool" where
  "subscription_inv a r sys =
     (timers sys + awaiting sys \<le> 1
      \<and> acquisitions (world sys) = a + 1
      \<and> (case changeSubscriptionId (session sys) of
            Some i \<Rightarrow> releases (world sys) = r
          | None \<Rightarrow> timers sys = 0 \<and> awaiting sys = 0 \<and> releases (world sys) = r + 1))"

subsection \<open>Sample inputs\<close>

text \<open>
  Concrete inputs on which the theorems below are exercised: a decoded record; a library
  whose decoder returns that record under a given tag and whose key constructor
  rejects inputs of more than 32 bytes; a record whose X key has 33 bytes, with a
  library that decodes to it; a seven-byte buffer whose prefix announces two payload
  bytes; and an environment in which nothing has happened yet.
\<close>

definition sampleGame :: "string \<Rightarrow> int \<Rightarrow> int \<Rightarrow> game" where
  "sampleGame p kx ko =
     \<lparr> player_x = [1], player_o = Some [2], state_tag = p,
       board_cells = [''F'', ''X'', ''O'', ''F'', ''F'', ''F'', ''F'', ''F'', ''F''],
       keep_alive_pair = [kx, ko] \<rparr>"

definition sampleKey :: "buffer \<Rightarrow> error + PublicKey" where
  "sampleKey b =
     (if 32 < length b then Inl (External ''Invalid public key input'')
      else Inr (PublicKey b))"

definition sampleLibrary :: "string \<Rightarrow> string \<Rightarrow> int \<Rightarrow> int \<Rightarrow> library" where
  "sampleLibrary tag p kx ko =
     \<lparr> cbor_decode = (\<lambda>payload. Inr (tag, sampleGame p kx ko)), newPublicKey = sampleKey \<rparr>"



definition sampleBuffer :: buffer where
  "sampleBuffer = [2, 0, 0, 0, 0, 0, 0]"

definition emptyEnvironment :: environment where
  "emptyEnvironment = \<lparr> effects = [], nextSubscriptionId = 0 \<rparr>"

section \<open>Properties\<close>

subsection \<open>The decoder\<close>

lemma readUInt32LE_sampleBuffer: "readUInt32LE sampleBuffer 0 = Inr 2"
  by (simp add: readUInt32LE_def sampleBuffer_def)

lemma sampleBuffer_passes: "(2::nat) + 4 < length sampleBuffer"
  by (simp add: sampleBuffer_def)

lemma sampleLibrary_decode:
  "cbor_decode (sampleLibrary tag p kx ko) (drop 4 sampleBuffer) = Inr (tag, sampleGame p kx ko)"
  by (simp add: sampleLibrary_def)

lemma sampleLibrary_keys:
  "newPublicKey (sampleLibrary tag p kx ko) (player_x (sampleGame q kx' ko')) = Inr (PublicKey [1])"
  "playerOKey (sampleLibrary tag p kx ko) (player_o (sampleGame q kx' ko')) = Inr (Some (PublicKey [2]))"
  by (simp_all add: sampleLibrary_def sampleGame_def sampleKey_def playerOKey_def)

lemma priv_getGameState_valid:
  assumes "readUInt32LE userdata 0 = Inr len" and "len + 4 < length userdata"
    and "cbor_decode lib (drop 4 userdata) = Inr (''Game'', g)"
    and "newPublicKey lib (player_x g) = Inr px"
    and "playerOKey lib (player_o g) = Inr po"
  shows "priv_getGameState lib userdata =
           fetchSwitch
             \<lparr> gameState = state_tag g, inProgress = False, myTurn = False,
               draw = False, winner = False,
               board = map (\<lambda>i. if i = ''F'' then '' '' else i) (board_cells g),
               playerX = Some px, playerO = po,
               keep_alive = keep_alive_pair g \<rparr>"
  using assms by (simp add: priv_getGameState_def)

lemma sampleLibrary_valid:
  "priv_getGameState (sampleLibrary ''Game'' p kx ko) sampleBuffer =
     fetchSwitch
       \<lparr> gameState = p, inProgress = False, myTurn = False, draw = False, winner = False,
         board = ['' '', ''X'', ''O'', '' '', '' '', '' '', '' '', '' '', '' ''],
         playerX = Some (PublicKey [1]), playerO = Some (PublicKey [2]),
         keep_alive = [kx, ko] \<rparr>"
  using priv_getGameState_valid
          [OF readUInt32LE_sampleBuffer sampleBuffer_passes sampleLibrary_decode
              sampleLibrary_keys(1) sampleLibrary_keys(2)]
  by (simp add: sampleGame_def)

lemma fetchSwitch_Inr:
  assumes "fetchSwitch st = Inr v"
  shows "gameState v = gameState st \<and> gameState v \<in> set phases
    \<and> myTurn v = myTurn st \<and> winner v = winner st
    \<and> inProgress v = (inProgress st \<or> gameState st = ''XMove'' \<or> gameState st = ''OMove'')
    \<and> draw v = (draw st \<or> gameState st = ''Draw'')"
  using assms by (auto simp: fetchSwitch_def phases_def split: if_splits)

lemma priv_getGameState_Inr:
  assumes "priv_getGameState lib userdata = Inr v"
  shows "gameState v \<in> set phases \<and> \<not> myTurn v \<and> \<not> winner v
    \<and> inProgress v = (gameState v = ''XMove'' \<or> gameState v = ''OMove'')
    \<and> draw v = (gameState v = ''Draw'')"
proof -
  from assms obtain st where sw: "fetchSwitch st = Inr v"
    and st: "\<not> inProgress st" "\<not> myTurn st" "\<not> draw st" "\<not> winner st"
    by (auto simp: priv_getGameState_def split: sum.splits if_splits prod.splits)
  from fetchSwitch_Inr [OF sw] st show ?thesis by auto
qed

lemma changeSwitch_total:
  assumes "gameState st \<in> set phases"
  shows "\<exists>v. changeSwitch x st = Inr v"
  using assms by (auto simp: changeSwitch_def phases_def)

text \<open>
  Claim C2. The claim: the decoder fails with \<open>MalformedState\<close> exactly when the
  prefix plus four strictly exceeds the buffer size, and a buffer that the prefix fills
  exactly is decoded. The code compares with \<open>>=\<close> (line 242): on the six-byte buffer
  whose prefix is 2, where \<open>length + 4\<close> equals the buffer size, it throws
  \<open>Invalid game state length\<close> whatever the payload holds.
\<close>

theorem priv_getGameState_exact_fit_rejected:
  "length [2, 0, 0, 0, 0, 0 :: byte] = 2 + 4
   \<and> readUInt32LE [2, 0, 0, 0, 0, 0] 0 = Inr 2
   \<and> priv_getGameState lib [2, 0, 0, 0, 0, 0] = Inl MalformedState"
  by (simp add: priv_getGameState_def readUInt32LE_def)




text \<open>
  Claim C10. On a valid payload (the length check passes, the tag is \<open>Game\<close>, the
  keys are accepted, the phase is one of the six) the static \<open>getGameState\<close> returns
  a view whose \<open>myTurn\<close> and \<open>winner\<close> are false in every phase, \<open>XWon\<close> and
  \<open>OWon\<close> included, while \<open>draw\<close> and \<open>inProgress\<close> are set from the phase.
\<close>

theorem getGameState_no_turn_no_winner:
  assumes "readUInt32LE userdata 0 = Inr len" and "len + 4 < length userdata"
    and "cbor_decode lib (drop 4 userdata) = Inr (''Game'', g)"
    and "newPublicKey lib (player_x g) = Inr px" and "playerOKey lib (player_o g) = Inr po"
    and "state_tag g \<in> set phases"
  shows "\<exists>v. getGameState lib (Inr userdata) = Inr v
    \<and> gameState v = state_tag g \<and> \<not> myTurn v \<and> \<not> winner v
    \<and> draw v = (state_tag g = ''Draw'')
    \<and> inProgress v = (state_tag g = ''XMove'' \<or> state_tag g = ''OMove'')"
  using assms(6) priv_getGameState_valid [OF assms(1-5)]
  by (auto simp: getGameState_def fetchSwitch_def phases_def)

theorem getGameState_no_turn_no_winner_witness:
  "\<exists>v. getGameState (sampleLibrary ''Game'' ''XWon'' 0 0) (Inr sampleBuffer) = Inr v
     \<and> gameState v = ''XWon'' \<and> \<not> myTurn v \<and> \<not> winner v \<and> \<not> draw v \<and> \<not> inProgress v"
proof -
  have p: "state_tag (sampleGame ''XWon'' 0 0) \<in> set phases"
    by (simp add: sampleGame_def phases_def)
  show ?thesis
    using getGameState_no_turn_no_winner
            [where lib = "sampleLibrary ''Game'' ''XWon'' 0 0",
             OF readUInt32LE_sampleBuffer sampleBuffer_passes sampleLibrary_decode
                sampleLibrary_keys(1) sampleLibrary_keys(2) p]
    by (simp add: sampleGame_def)
qed

subsection \<open>The liveness monitor\<close>

text \<open>
  Claim C6. With the keep-alive pair \<open>[markerX, markerO]\<close>, player X reads index 1
  (O's marker) and player O reads index 0 (X's marker), and the peer is alive exactly
  when \<open>now - marker < 10000\<close>. The witness is the boundary: at \<open>now = 60000\<close> a
  marker of \<open>50001\<close> (\<open>now - 9999\<close>) is alive and one of \<open>50000\<close> is not.
\<close>

theorem isPeerAlive_strict_threshold:
  assumes "keep_alive (state s) = [markerX, markerO]"
  shows "isPeerAlive s now = (now - (if isX s then markerO else markerX) < 10000)"
  using assms by (simp add: isPeerAlive_def)

theorem isPeerAlive_strict_threshold_witness:
  "isPeerAlive ((constructor True)\<lparr>state := initialState\<lparr>keep_alive := [0, 50001]\<rparr>\<rparr>) 60000
   \<and> \<not> isPeerAlive ((constructor True)\<lparr>state := initialState\<lparr>keep_alive := [0, 50000]\<rparr>\<rparr>) 60000
   \<and> isPeerAlive ((constructor False)\<lparr>state := initialState\<lparr>keep_alive := [50001, 0]\<rparr>\<rparr>) 60000
   \<and> \<not> isPeerAlive ((constructor False)\<lparr>state := initialState\<lparr>keep_alive := [50000, 0]\<rparr>\<rparr>) 60000"
  using isPeerAlive_strict_threshold
          [of "(constructor True)\<lparr>state := initialState\<lparr>keep_alive := [0, 50001]\<rparr>\<rparr>" 0 50001 60000]
        isPeerAlive_strict_threshold
          [of "(constructor True)\<lparr>state := initialState\<lparr>keep_alive := [0, 50000]\<rparr>\<rparr>" 0 50000 60000]
        isPeerAlive_strict_threshold
          [of "(constructor False)\<lparr>state := initialState\<lparr>keep_alive := [50001, 0]\<rparr>\<rparr>" 50001 0 60000]
        isPeerAlive_strict_threshold
          [of "(constructor False)\<lparr>state := initialState\<lparr>keep_alive := [50000, 0]\<rparr>\<rparr>" 50000 0 60000]
  by (simp add: constructor_def)

subsection \<open>The change handler\<close>

text \<open>
  Claim C5. For every decoded game record \<open>g\<close> (the length check passes, the tag is
  \<open>Game\<close>, the keys are accepted, the phase tag is one of the six), the derivation
  succeeds, the view carries the phase, the board (with \<open>F\<close> mapped to a blank), the
  keys and the keep-alive pair of \<open>g\<close>, and its flags obey the phase table of the
  record's phase: all flags false in \<open>Waiting\<close>; \<open>myTurn = isX\<close> in \<open>XMove\<close> and
  \<open>myTurn = \<not> isX\<close> in \<open>OMove\<close>; \<open>draw\<close> in \<open>Draw\<close>; \<open>winner = isX\<close> in
  \<open>XWon\<close> and \<open>winner = \<not> isX\<close> in \<open>OWon\<close>; \<open>inProgress\<close> exactly in
  \<open>XMove\<close> and \<open>OMove\<close>. The handler stores this view after the liveness
  adjustment and emits one change event.
\<close>

theorem derive_phase_table:
  assumes "readUInt32LE userdata 0 = Inr len" and "len + 4 < length userdata"
    and "cbor_decode lib (drop 4 userdata) = Inr (''Game'', g)"
    and "newPublicKey lib (player_x g) = Inr px" and "playerOKey lib (player_o g) = Inr po"
    and "state_tag g \<in> set phases"
  shows "\<exists>v. derive lib x userdata = Inr v
    \<and> gameState v = state_tag g
    \<and> board v = map (\<lambda>i. if i = ''F'' then '' '' else i) (board_cells g)
    \<and> playerX v = Some px \<and> playerO v = po \<and> keep_alive v = keep_alive_pair g
    \<and> (state_tag g = ''Waiting'' \<longrightarrow> \<not> inProgress v \<and> \<not> myTurn v \<and> \<not> draw v \<and> \<not> winner v)
    \<and> (state_tag g = ''XMove'' \<longrightarrow> inProgress v \<and> myTurn v = x \<and> \<not> draw v \<and> \<not> winner v)
    \<and> (state_tag g = ''OMove'' \<longrightarrow> inProgress v \<and> myTurn v = (\<not> x) \<and> \<not> draw v \<and> \<not> winner v)
    \<and> (state_tag g = ''Draw'' \<longrightarrow> \<not> inProgress v \<and> \<not> myTurn v \<and> draw v \<and> \<not> winner v)
    \<and> (state_tag g = ''XWon'' \<longrightarrow> \<not> inProgress v \<and> \<not> myTurn v \<and> \<not> draw v \<and> winner v = x)
    \<and> (state_tag g = ''OWon'' \<longrightarrow> \<not> inProgress v \<and> \<not> myTurn v \<and> \<not> draw v \<and> winner v = (\<not> x))
    \<and> inProgress v = (state_tag g = ''XMove'' \<or> state_tag g = ''OMove'')
    \<and> priv_onAccountChange lib userdata now (s\<lparr>isX := x\<rparr>) env =
        (Inr (), livenessAdjust now (s\<lparr>isX := x, state := v\<rparr>),
         record_effect EmitChange env)"
proof -
  let ?st = "\<lparr> gameState = state_tag g, inProgress = False, myTurn = False,
               draw = False, winner = False,
               board = map (\<lambda>i. if i = ''F'' then '' '' else i) (board_cells g),
               playerX = Some px, playerO = po,
               keep_alive = keep_alive_pair g \<rparr>"
  note dec = priv_getGameState_valid [OF assms(1-5)]
  from assms(6) obtain st' where f: "fetchSwitch ?st = Inr st'"
    by (auto simp: fetchSwitch_def phases_def)
  note fl = fetchSwitch_Inr [OF f]
  from fl changeSwitch_total obtain v where v: "changeSwitch x st' = Inr v" by blast
  have d: "derive lib x userdata = Inr v"
    using dec f v by (simp add: derive_def)
  have same: "gameState st' = state_tag g" "board st' = board ?st" "playerX st' = Some px"
    "playerO st' = po" "keep_alive st' = keep_alive_pair g"
    using f by (auto simp: fetchSwitch_def split: if_splits)
  have flags: "gameState v = gameState st'" "board v = board st'" "playerX v = playerX st'"
    "playerO v = playerO st'" "keep_alive v = keep_alive st'"
    "inProgress v = inProgress st'" "draw v = draw st'"
    "myTurn v = (if gameState st' = ''XMove'' then x
                 else if gameState st' = ''OMove'' then \<not> x else myTurn st')"
    "winner v = (if gameState st' = ''XWon'' then x
                 else if gameState st' = ''OWon'' then \<not> x else winner st')"
    using v by (auto simp: changeSwitch_def split: if_splits)
  have h: "priv_onAccountChange lib userdata now (s\<lparr>isX := x\<rparr>) env =
        (Inr (), livenessAdjust now (s\<lparr>isX := x, state := v\<rparr>),
         record_effect EmitChange env)"
    using dec f v by (simp add: priv_onAccountChange_def Let_def)
  have table: "gameState v = state_tag g"
    "board v = map (\<lambda>i. if i = ''F'' then '' '' else i) (board_cells g)"
    "playerX v = Some px" "playerO v = po" "keep_alive v = keep_alive_pair g"
    "\<not> myTurn st'" "\<not> winner st'"
    "inProgress v = (state_tag g = ''XMove'' \<or> state_tag g = ''OMove'')"
    "draw v = (state_tag g = ''Draw'')"
    using fl same flags by simp_all
  show ?thesis
    using d h table flags(8,9) same(1) by auto
qed

theorem derive_phase_table_witness:
  "(\<exists>v. derive (sampleLibrary ''Game'' ''XMove'' 0 0) True sampleBuffer = Inr v
      \<and> inProgress v \<and> myTurn v \<and> \<not> draw v \<and> \<not> winner v)
   \<and> (\<exists>v. derive (sampleLibrary ''Game'' ''Waiting'' 0 0) True sampleBuffer = Inr v
      \<and> \<not> inProgress v \<and> \<not> myTurn v \<and> \<not> draw v \<and> \<not> winner v)"
proof -
  have p: "state_tag (sampleGame ''XMove'' 0 0) \<in> set phases"
    and q: "state_tag (sampleGame ''Waiting'' 0 0) \<in> set phases"
    by (simp_all add: sampleGame_def phases_def)
  note a = derive_phase_table
    [where lib = "sampleLibrary ''Game'' ''XMove'' 0 0" and x = True and now = 0
       and s = "constructor True" and env = emptyEnvironment,
     OF readUInt32LE_sampleBuffer sampleBuffer_passes sampleLibrary_decode
        sampleLibrary_keys(1) sampleLibrary_keys(2) p]
  note b = derive_phase_table
    [where lib = "sampleLibrary ''Game'' ''Waiting'' 0 0" and x = True and now = 0
       and s = "constructor True" and env = emptyEnvironment,
     OF readUInt32LE_sampleBuffer sampleBuffer_passes sampleLibrary_decode
        sampleLibrary_keys(1) sampleLibrary_keys(2) q]
  have x: "state_tag (sampleGame ''XMove'' 0 0) = ''XMove''"
    and w: "state_tag (sampleGame ''Waiting'' 0 0) = ''Waiting''"
    by (simp_all add: sampleGame_def)
  from a x have "\<exists>v. derive (sampleLibrary ''Game'' ''XMove'' 0 0) True sampleBuffer = Inr v
      \<and> inProgress v \<and> myTurn v \<and> \<not> draw v \<and> \<not> winner v"
    by blast
  moreover from b w have "\<exists>v. derive (sampleLibrary ''Game'' ''Waiting'' 0 0) True sampleBuffer = Inr v
      \<and> \<not> inProgress v \<and> \<not> myTurn v \<and> \<not> draw v \<and> \<not> winner v"
    by blast
  ultimately show ?thesis by (rule conjI)
qed

text \<open>
  Claim C9. When the decoder fails on the payload, the handler fails with the same
  error and leaves the session (view and \<open>abandoned\<close> included) and the environment
  (so no change event) as they were. Every failure of the handler is of this kind, and
  the handler changes anything only once the decoder has returned a view.
\<close>

theorem priv_onAccountChange_failure_atomic:
  "(priv_getGameState lib userdata = Inl e \<longrightarrow>
      priv_onAccountChange lib userdata now s env = (Inl e, s, env))
   \<and> (fst (priv_onAccountChange lib userdata now s env) = Inl e \<longrightarrow>
        priv_getGameState lib userdata = Inl e
        \<and> priv_onAccountChange lib userdata now s env = (Inl e, s, env))
   \<and> (snd (priv_onAccountChange lib userdata now s env) \<noteq> (s, env) \<longrightarrow>
        (\<exists>st. priv_getGameState lib userdata = Inr st))"
proof (cases "priv_getGameState lib userdata")
  case (Inl e')
  then show ?thesis by (simp add: priv_onAccountChange_def)
next
  case (Inr st)
  from priv_getGameState_Inr [OF Inr] changeSwitch_total
  obtain v where "changeSwitch (isX s) st = Inr v" by blast
  with Inr show ?thesis by (simp add: priv_onAccountChange_def Let_def)
qed

theorem priv_onAccountChange_failure_atomic_witness:
  "priv_onAccountChange (sampleLibrary ''Game'' ''XMove'' 0 0) [3, 0, 0, 0, 0, 0, 0] 5 (constructor True) emptyEnvironment
     = (Inl MalformedState, constructor True, emptyEnvironment)
   \<and> priv_onAccountChange (sampleLibrary ''Lobby'' ''XMove'' 0 0) sampleBuffer 5 (constructor True) emptyEnvironment
     = (Inl (UnexpectedTag ''Lobby''), constructor True, emptyEnvironment)
   \<and> priv_onAccountChange (sampleLibrary ''Game'' ''OWin'' 0 0) sampleBuffer 5 (constructor True) emptyEnvironment
     = (Inl (UnknownPhase ''OWin''), constructor True, emptyEnvironment)"
proof -
  have a: "priv_getGameState (sampleLibrary ''Game'' ''XMove'' 0 0) [3, 0, 0, 0, 0, 0, 0] = Inl MalformedState"
    by (simp add: priv_getGameState_def readUInt32LE_def)
  have b: "priv_getGameState (sampleLibrary ''Lobby'' ''XMove'' 0 0) sampleBuffer = Inl (UnexpectedTag ''Lobby'')"
    using readUInt32LE_sampleBuffer sampleBuffer_passes
          sampleLibrary_decode [of "''Lobby''" "''XMove''" 0 0]
    by (simp add: priv_getGameState_def)
  have c: "priv_getGameState (sampleLibrary ''Game'' ''OWin'' 0 0) sampleBuffer = Inl (UnknownPhase ''OWin'')"
    by (simp add: sampleLibrary_valid fetchSwitch_def)
  note r1 = priv_onAccountChange_failure_atomic
    [of "sampleLibrary ''Game'' ''XMove'' 0 0" "[3, 0, 0, 0, 0, 0, 0]" MalformedState 5
        "constructor True" emptyEnvironment, THEN conjunct1, THEN mp, OF a]
  note r2 = priv_onAccountChange_failure_atomic
    [of "sampleLibrary ''Lobby'' ''XMove'' 0 0" sampleBuffer "UnexpectedTag ''Lobby''" 5
        "constructor True" emptyEnvironment, THEN conjunct1, THEN mp, OF b]
  note r3 = priv_onAccountChange_failure_atomic
    [of "sampleLibrary ''Game'' ''OWin'' 0 0" sampleBuffer "UnknownPhase ''OWin''" 5
        "constructor True" emptyEnvironment, THEN conjunct1, THEN mp, OF c]
  from r1 r2 r3 show ?thesis by (intro conjI)
qed

subsection \<open>Commands\<close>

text \<open>
  Claim C3, as amended. \<open>abandon\<close> sets \<open>abandoned\<close>, submits \<open>KeepAlive 0\<close> and
  settles as the submission does: a failed delivery rejects \<open>abandon\<close> with the same
  error and nothing is written to the console. The flag is set whatever the outcome.
\<close>

theorem abandon_propagates:
  "abandon now out s env =
     (settled out, s\<lparr>abandoned := True\<rparr>, record_effect (Sent (KeepAlive 0)) env)
   \<and> (case out of None \<Rightarrow> settled out = Inr () | Some e \<Rightarrow> settled out = Inl e)"
  by (simp add: abandon_def keepAlive_def keepAliveCommand_def settled_def split: option.split)

text \<open>
  Claim C3 as stated (a failed delivery is logged and \<open>abandon\<close> does not fail) does
  not hold: with a submission that throws, \<open>abandon\<close> is rejected with that error and
  the only effect is the submission itself.
\<close>

theorem abandon_failure_escalates:
  "abandon 5 (Some (External ''network'')) (constructor True) emptyEnvironment =
     (Inl (External ''network''), (constructor True)\<lparr>abandoned := True\<rparr>,
      \<lparr> effects = [Sent (KeepAlive 0)], nextSubscriptionId = 0 \<rparr>)"
  by (simp add: abandon_def keepAlive_def settled_def keepAliveCommand_def record_effect_def
        emptyEnvironment_def)

subsection \<open>The keep-alive loop\<close>

text \<open>
  Claim C1. The claim: a tick on a session that is not abandoned ends the loop in every
  terminal phase, \<open>OWon\<close> in particular. The list of line 111 names \<open>OWin\<close>, a
  tag no record carries, so in phase \<open>OWon\<close> the callback does not end the loop: it
  submits a keep-alive and suspends, and a timer is armed again once the keep-alive has
  settled.
\<close>

theorem timerCallback_OWon_continues:
  "timerCallback now (s\<lparr>abandoned := False, state := (state s)\<lparr>gameState := ''OWon''\<rparr>\<rparr>) env =
     (Suspended, s\<lparr>abandoned := False, state := (state s)\<lparr>gameState := ''OWon''\<rparr>\<rparr>,
      record_effect (Sent (KeepAlive now)) env)
   \<and> timers (run lib [TimerFires now, KeepAliveSettles out]
        \<lparr> session = s\<lparr>abandoned := False, state := (state s)\<lparr>gameState := ''OWon''\<rparr>\<rparr>,
          world = env, timers = 1, awaiting = 0 \<rparr>) = 1"
  by (simp add: timerCallback_def keepAliveCommand_def timerCallbackResume_def
        scheduleNextKeepAlive_def split: option.split)

lemma acquisitions_record_effect:
  "acquisitions (record_effect x env) =
     acquisitions env + (case x of Subscribed i \<Rightarrow> 1 | _ \<Rightarrow> 0)"
  by (simp add: acquisitions_def record_effect_def split: effect.split)

lemma releases_record_effect:
  "releases (record_effect x env) =
     releases env + (case x of Unsubscribed i \<Rightarrow> 1 | _ \<Rightarrow> 0)"
  by (simp add: releases_def record_effect_def split: effect.split)

lemma counts_nextSubscriptionId:
  "acquisitions (env\<lparr>nextSubscriptionId := n\<rparr>) = acquisitions env"
  "releases (env\<lparr>nextSubscriptionId := n\<rparr>) = releases env"
  by (simp_all add: acquisitions_def releases_def)

lemmas count_simps = acquisitions_record_effect releases_record_effect counts_nextSubscriptionId

text \<open>What each operation does to the flag, the subscription and the two counts.\<close>

lemma priv_onAccountChange_frame:
  assumes "priv_onAccountChange lib userdata now s env = (r, s', env')"
  shows "(abandoned s \<longrightarrow> abandoned s')
    \<and> changeSubscriptionId s' = changeSubscriptionId s
    \<and> acquisitions env' = acquisitions env \<and> releases env' = releases env"
  using assms
  by (auto simp: priv_onAccountChange_def livenessAdjust_def Let_def count_simps
           split: sum.splits if_splits)

lemma keepAlive_frame:
  assumes "keepAlive when now out s env = (r, s', env')"
  shows "s' = s \<and> acquisitions env' = acquisitions env \<and> releases env' = releases env"
  using assms by (auto simp: keepAlive_def count_simps)

lemma abandon_frame:
  assumes "abandon now out s env = (r, s', env')"
  shows "abandoned s' \<and> changeSubscriptionId s' = changeSubscriptionId s
    \<and> acquisitions env' = acquisitions env \<and> releases env' = releases env"
  using assms by (auto simp: abandon_def keepAlive_def count_simps)

lemma move_frame:
  assumes "move x y out s env = (r, s', env')"
  shows "s' = s \<and> acquisitions env' = acquisitions env \<and> releases env' = releases env"
  using assms by (auto simp: move_def count_simps)

lemma scheduleNextKeepAlive_frame:
  assumes "scheduleNextKeepAlive s env = (s', env')"
  shows "abandoned s' = abandoned s \<and> changeSubscriptionId s' \<noteq> None
    \<and> releases env' = releases env
    \<and> acquisitions env' = acquisitions env + (if changeSubscriptionId s = None then 1 else 0)"
  using assms by (auto simp: scheduleNextKeepAlive_def count_simps split: option.splits)

lemma timerCallback_frame:
  assumes "timerCallback now s env = (k, s', env')"
  shows "abandoned s' = abandoned s \<and> acquisitions env' = acquisitions env
    \<and> (abandoned s \<longrightarrow> k = Terminated \<and> changeSubscriptionId s' = None
          \<and> releases env' = releases env + (if changeSubscriptionId s = None then 0 else 1))
    \<and> (\<not> abandoned s \<longrightarrow> changeSubscriptionId s' = changeSubscriptionId s
          \<and> releases env' = releases env)"
  using assms
  by (auto simp: timerCallback_def count_simps split: option.splits if_splits)

lemma timerCallbackResume_frame:
  assumes "timerCallbackResume out s env = (s', env')"
  shows "abandoned s' = abandoned s \<and> changeSubscriptionId s' \<noteq> None
    \<and> releases env' = releases env
    \<and> acquisitions env' = acquisitions env + (if changeSubscriptionId s = None then 1 else 0)"
  using assms scheduleNextKeepAlive_frame [of s _ s' env']
  by (auto simp: timerCallbackResume_def count_simps split: option.splits)

lemma step_abandoned:
  assumes "abandoned (session sys)"
  shows "abandoned (session (step lib e sys))"
proof (cases e)
  case (TimerFires now)
  then show ?thesis using assms
    by (auto split: prod.splits continuation.splits dest: timerCallback_frame)
next
  case (KeepAliveSettles out)
  then show ?thesis using assms
    by (auto split: prod.splits dest: timerCallbackResume_frame)
next
  case (AccountChange userdata now)
  then show ?thesis using assms
    by (auto split: prod.splits dest: priv_onAccountChange_frame)
next
  case (CallKeepAlive w now out)
  then show ?thesis using assms by (auto split: prod.splits dest: keepAlive_frame)
next
  case (CallAbandon now out)
  then show ?thesis by (auto split: prod.splits dest: abandon_frame)
next
  case (CallMove x y out)
  then show ?thesis using assms by (auto split: prod.splits dest: move_frame)
next
  case (CallOnChange fn)
  then show ?thesis using assms by simp
next
  case (CallRemoveChangeListener fn)
  then show ?thesis using assms by simp
qed

lemma run_abandoned:
  "abandoned (session sys) \<Longrightarrow> abandoned (session (run lib es sys))"
  by (induction es arbitrary: sys) (simp_all add: step_abandoned)

lemma step_subscription_inv:
  assumes "subscription_inv a r sys"
  shows "subscription_inv a r (step lib e sys)"
proof (cases e)
  case (TimerFires now)
  then show ?thesis using assms
    by (auto simp: subscription_inv_def split: prod.splits continuation.splits option.splits
             dest!: timerCallback_frame)
next
  case (KeepAliveSettles out)
  then show ?thesis using assms
    by (auto simp: subscription_inv_def split: prod.splits option.splits
             dest!: timerCallbackResume_frame)
next
  case (AccountChange userdata now)
  then show ?thesis using assms
    by (auto simp: subscription_inv_def split: prod.splits option.splits dest!: priv_onAccountChange_frame)
next
  case (CallKeepAlive w now out)
  then show ?thesis using assms
    by (auto simp: subscription_inv_def split: prod.splits option.splits dest!: keepAlive_frame)
next
  case (CallAbandon now out)
  then show ?thesis using assms
    by (auto simp: subscription_inv_def split: prod.splits option.splits dest!: abandon_frame)
next
  case (CallMove x y out)
  then show ?thesis using assms
    by (auto simp: subscription_inv_def split: prod.splits option.splits dest!: move_frame)
next
  case (CallOnChange fn)
  then show ?thesis using assms by (simp add: subscription_inv_def onChange_def count_simps split: option.splits)
next
  case (CallRemoveChangeListener fn)
  then show ?thesis using assms by (simp add: subscription_inv_def removeChangeListener_def count_simps split: option.splits)
qed

lemma run_subscription_inv:
  "subscription_inv a r sys \<Longrightarrow> subscription_inv a r (run lib es sys)"
  by (induction es arbitrary: sys) (simp_all add: step_subscription_inv)

lemma create_subscription_inv:
  assumes "create alloc out env = Inr sys"
  shows "subscription_inv (acquisitions env) (releases env) sys"
  using assms
  by (auto simp: create_def started_def subscription_inv_def scheduleNextKeepAlive_def
                 constructor_def count_simps split: option.splits)

lemma join_subscription_inv:
  assumes "join lib now out fetched now' env = Inr sys"
  shows "subscription_inv (acquisitions env) (releases env) sys"
proof -
  from assms obtain userdata u s env' where
    h: "priv_onAccountChange lib userdata now' (constructor False)
          (record_effect (Sent (Join now)) env) = (Inr u, s, env')"
    and sys: "sys = started (scheduleNextKeepAlive s env')"
    by (auto simp: join_def split: option.splits sum.splits prod.splits)
  from priv_onAccountChange_frame [OF h]
  have "changeSubscriptionId s = None" "acquisitions env' = acquisitions env"
    "releases env' = releases env"
    by (simp_all add: constructor_def count_simps)
  then show ?thesis
    by (simp add: sys started_def subscription_inv_def scheduleNextKeepAlive_def count_simps)
qed

lemma step_releases:
  assumes "releases (world (step lib e sys)) \<noteq> releases (world sys)"
  shows "(\<exists>now. e = TimerFires now) \<and> abandoned (session sys)
    \<and> releases (world (step lib e sys)) = releases (world sys) + 1"
proof (cases e)
  case (TimerFires now)
  then show ?thesis using assms
    by (auto split: prod.splits continuation.splits if_splits dest!: timerCallback_frame)
next
  case (KeepAliveSettles out)
  then show ?thesis using assms
    by (auto split: prod.splits if_splits dest!: timerCallbackResume_frame)
next
  case (AccountChange userdata now)
  then show ?thesis using assms
    by (auto split: prod.splits dest!: priv_onAccountChange_frame)
next
  case (CallKeepAlive w now out)
  then show ?thesis using assms by (auto split: prod.splits dest!: keepAlive_frame)
next
  case (CallAbandon now out)
  then show ?thesis using assms by (auto split: prod.splits dest!: abandon_frame)
next
  case (CallMove x y out)
  then show ?thesis using assms by (auto split: prod.splits dest!: move_frame)
next
  case (CallOnChange fn)
  then show ?thesis using assms by (simp add: onChange_def count_simps)
next
  case (CallRemoveChangeListener fn)
  then show ?thesis using assms by (simp add: removeChangeListener_def count_simps)
qed

text \<open>
  Claim C4. If the derived view of an update is in progress and the liveness monitor
  reports the peer inactive, the handler stores a view that is not in progress and sets
  \<open>abandoned\<close>. The flag is one-way: no event of the session (timer, settled
  keep-alive, update, \<open>keepAlive\<close>, \<open>abandon\<close>, \<open>move\<close>, listener
  registration), and no sequence of them, resets it.
\<close>

theorem abandoned_one_way:
  "(derive lib (isX s) userdata = Inr v \<and> inProgress v
      \<and> \<not> isPeerAlive (s\<lparr>state := v\<rparr>) now \<longrightarrow>
      (\<exists>s' env'. priv_onAccountChange lib userdata now s env = (Inr (), s', env')
         \<and> \<not> inProgress (state s') \<and> abandoned s'))
   \<and> (abandoned (session sys) \<longrightarrow> abandoned (session (step lib e sys)))
   \<and> (abandoned (session sys) \<longrightarrow> abandoned (session (run lib es sys)))"
proof -
  have "\<exists>s' env'. priv_onAccountChange lib userdata now s env = (Inr (), s', env')
         \<and> \<not> inProgress (state s') \<and> abandoned s'"
    if "derive lib (isX s) userdata = Inr v" "inProgress v"
      "\<not> isPeerAlive (s\<lparr>state := v\<rparr>) now"
    using that
    by (auto simp: derive_def priv_onAccountChange_def livenessAdjust_def Let_def
             split: sum.splits)
  then show ?thesis
    using step_abandoned run_abandoned by blast
qed

theorem abandoned_one_way_witness:
  "(\<exists>s' env'. priv_onAccountChange (sampleLibrary ''Game'' ''XMove'' 0 0) sampleBuffer 10000
                  (constructor True) emptyEnvironment = (Inr (), s', env')
       \<and> \<not> inProgress (state s') \<and> abandoned s')
   \<and> abandoned (session (run (sampleLibrary ''Game'' ''XMove'' 20000 20000)
        [AccountChange sampleBuffer 20001, CallKeepAlive None 20002 None, TimerFires 20003]
        \<lparr> session = (constructor True)\<lparr>abandoned := True\<rparr>, world = emptyEnvironment,
          timers = 1, awaiting = 0 \<rparr>))"
proof -
  let ?v = "\<lparr> gameState = ''XMove'', inProgress = True, myTurn = True, draw = False,
         winner = False,
         board = ['' '', ''X'', ''O'', '' '', '' '', '' '', '' '', '' '', '' ''],
         playerX = Some (PublicKey [1]), playerO = Some (PublicKey [2]),
         keep_alive = [0, 0] \<rparr>"
  have d: "derive (sampleLibrary ''Game'' ''XMove'' 0 0) (isX (constructor True)) sampleBuffer = Inr ?v"
    by (simp add: derive_def sampleLibrary_valid fetchSwitch_def changeSwitch_def constructor_def)
  have p: "\<not> isPeerAlive ((constructor True)\<lparr>state := ?v\<rparr>) 10000"
    by (simp add: isPeerAlive_def constructor_def)
  have a: "abandoned (session \<lparr> session = (constructor True)\<lparr>abandoned := True\<rparr>,
          world = emptyEnvironment, timers = 1, awaiting = 0 \<rparr>)"
    by simp
  show ?thesis
    using abandoned_one_way
      [of "sampleLibrary ''Game'' ''XMove'' 0 0" "constructor True" sampleBuffer ?v 10000
          emptyEnvironment
          "\<lparr> session = (constructor True)\<lparr>abandoned := True\<rparr>, world = emptyEnvironment,
             timers = 1, awaiting = 0 \<rparr>"]
      abandoned_one_way
      [of "sampleLibrary ''Game'' ''XMove'' 20000 20000" "constructor True" sampleBuffer ?v 10000
          emptyEnvironment
          "\<lparr> session = (constructor True)\<lparr>abandoned := True\<rparr>, world = emptyEnvironment,
             timers = 1, awaiting = 0 \<rparr>" _
          "[AccountChange sampleBuffer 20001, CallKeepAlive None 20002 None, TimerFires 20003]"]
      d p a
    by simp
qed

text \<open>
  Claim C7. A session started by \<open>create\<close> or \<open>join\<close> acquires the subscription
  once, whatever happens afterwards, and releases it at most once. Calling
  \<open>scheduleNextKeepAlive\<close> while a subscription is held only arms the timer. The
  release happens in a timer callback that finds the session abandoned, and nowhere
  else; such a callback releases the subscription exactly once and ends the loop.
\<close>

theorem subscription_acquired_once:
  assumes "create alloc out env0 = Inr sys0 \<or> join lib0 now0 out fetched now1 env0 = Inr sys0"
  shows "acquisitions (world (run lib es sys0)) = acquisitions env0 + 1
    \<and> releases (world (run lib es sys0)) \<le> releases env0 + 1
    \<and> (changeSubscriptionId s = Some i \<longrightarrow>
         scheduleNextKeepAlive s env = (s, record_effect SetTimeout env)
         \<and> acquisitions (snd (scheduleNextKeepAlive s env)) = acquisitions env)
    \<and> (releases (world (step lib e (run lib es sys0))) \<noteq> releases (world (run lib es sys0)) \<longrightarrow>
         (\<exists>t. e = TimerFires t) \<and> abandoned (session (run lib es sys0))
         \<and> releases (world (run lib es sys0)) = releases env0)
    \<and> (abandoned (session (run lib es sys0)) \<and> 0 < timers (run lib es sys0) \<longrightarrow>
         releases (world (run lib es sys0)) = releases env0
         \<and> releases (world (step lib (TimerFires t) (run lib es sys0))) = releases env0 + 1
         \<and> changeSubscriptionId (session (step lib (TimerFires t) (run lib es sys0))) = None
         \<and> timers (step lib (TimerFires t) (run lib es sys0)) = 0
         \<and> awaiting (step lib (TimerFires t) (run lib es sys0)) = 0)"
proof -
  let ?sys = "run lib es sys0"
  have "subscription_inv (acquisitions env0) (releases env0) sys0"
    using assms create_subscription_inv join_subscription_inv by blast
  then have inv: "subscription_inv (acquisitions env0) (releases env0) ?sys"
    by (rule run_subscription_inv)
  then have inv': "subscription_inv (acquisitions env0) (releases env0) (step lib e' ?sys)" for e'
    by (rule step_subscription_inv)
  have a: "acquisitions (world ?sys) = acquisitions env0 + 1"
    using inv by (simp add: subscription_inv_def)
  have b: "releases (world ?sys) \<le> releases env0 + 1"
    using inv by (auto simp: subscription_inv_def split: option.splits)
  have c: "scheduleNextKeepAlive s env = (s, record_effect SetTimeout env)
         \<and> acquisitions (snd (scheduleNextKeepAlive s env)) = acquisitions env"
    if "changeSubscriptionId s = Some i"
    using that by (simp add: scheduleNextKeepAlive_def count_simps)
  have d: "(\<exists>t. e = TimerFires t) \<and> abandoned (session ?sys)
         \<and> releases (world ?sys) = releases env0"
    if h: "releases (world (step lib e ?sys)) \<noteq> releases (world ?sys)"
  proof -
    note r = step_releases [OF h]
    have "releases (world (step lib e ?sys)) \<le> releases env0 + 1"
      using inv' [of e] by (auto simp: subscription_inv_def split: option.splits)
    moreover have "releases env0 \<le> releases (world ?sys)"
      using inv by (auto simp: subscription_inv_def split: option.splits)
    ultimately show ?thesis using r by auto
  qed
  have f: "releases (world ?sys) = releases env0
         \<and> releases (world (step lib (TimerFires t) ?sys)) = releases env0 + 1
         \<and> changeSubscriptionId (session (step lib (TimerFires t) ?sys)) = None
         \<and> timers (step lib (TimerFires t) ?sys) = 0
         \<and> awaiting (step lib (TimerFires t) ?sys) = 0"
    if "abandoned (session ?sys)" "0 < timers ?sys"
  proof -
    obtain k s' env' where tc: "timerCallback t (session ?sys) (world ?sys) = (k, s', env')"
      by (cases "timerCallback t (session ?sys) (world ?sys)") auto
    from that inv obtain j where j: "changeSubscriptionId (session ?sys) = Some j"
      and r: "releases (world ?sys) = releases env0" and tm: "timers ?sys = 1" "awaiting ?sys = 0"
      by (auto simp: subscription_inv_def split: option.splits)
    from timerCallback_frame [OF tc] that j
    have "k = Terminated" "changeSubscriptionId s' = None" "releases env' = releases (world ?sys) + 1"
      by simp_all
    then show ?thesis using tc r tm by simp
  qed
  show ?thesis using a b c d f by blast
qed

theorem subscription_acquired_once_witness:
  "acquisitions (world (run (sampleLibrary ''Game'' ''XMove'' 0 0) [CallAbandon 5 None]
      (started (scheduleNextKeepAlive (constructor True)
         (record_effect (Sent InitGame) emptyEnvironment))))) = 1
   \<and> releases (world (run (sampleLibrary ''Game'' ''XMove'' 0 0) [CallAbandon 5 None]
      (started (scheduleNextKeepAlive (constructor True)
         (record_effect (Sent InitGame) emptyEnvironment))))) = 0
   \<and> releases (world (step (sampleLibrary ''Game'' ''XMove'' 0 0) (TimerFires 1000)
      (run (sampleLibrary ''Game'' ''XMove'' 0 0) [CallAbandon 5 None]
        (started (scheduleNextKeepAlive (constructor True)
           (record_effect (Sent InitGame) emptyEnvironment)))))) = 1"
proof -
  let ?sys0 = "started (scheduleNextKeepAlive (constructor True)
         (record_effect (Sent InitGame) emptyEnvironment))"
  let ?D = "sampleLibrary ''Game'' ''XMove'' 0 0"
  have c: "create None None emptyEnvironment = Inr ?sys0 \<or>
           join ?D 0 None (Inr sampleBuffer) 0 emptyEnvironment = Inr ?sys0"
    by (simp add: create_def)
  have a: "abandoned (session (run ?D [CallAbandon 5 None] ?sys0))"
    by (simp add: abandon_def keepAlive_def started_def)
  have t: "0 < timers (run ?D [CallAbandon 5 None] ?sys0)"
    by (simp add: abandon_def keepAlive_def started_def)
  have z: "acquisitions emptyEnvironment = 0" "releases emptyEnvironment = 0"
    by (simp_all add: acquisitions_def releases_def emptyEnvironment_def)
  show ?thesis
    using subscription_acquired_once [OF c, where lib = ?D and es = "[CallAbandon 5 None]"
            and t = 1000] a t z
    by simp
qed

end
